theory Spec2Isabelle
  imports Main
begin

section \<open>JavaScript values as the component sees them\<close>

text \<open>
  The chat component (\<^verbatim>\<open>frontend/App.jsx\<close>) is untyped: what the backend answers is
  whatever \<^verbatim>\<open>res.json()\<close> parses, and it is stored in the component's state as it comes.
  Values are therefore modelled as a datatype of JavaScript values.

  A \<open>string\<close> is a list of code units; a \<open>char\<close> stands for a code unit below 256.
  The component never computes with numbers: it only tests them for truthiness and prints
  them. A number is carried as its canonical rendering (what \<^verbatim>\<open>String(n)\<close> gives), so
  \<open>JNumber ''0''\<close> stands for both zeros and \<open>JNumber ''NaN''\<close> for NaN.
  An object is the list of the members that \<^verbatim>\<open>JSON.parse\<close> read, in the order of the
  text; where a key occurs twice the later value counts. The component's own object
  literals are lists of this kind too.
\<close>

datatype jsvalue =
    JUndefined
  | JNull
  | JBool bool
  | JNumber string
  | JString string
  | JArray "jsvalue list"
  | JObject "(string \<times> jsvalue) list"

text \<open>What is thrown: an error object with its \<^verbatim>\<open>name\<close> and \<^verbatim>\<open>message\<close>.\<close>

datatype js_error = JsError string string

text \<open>\<^verbatim>\<open>Error.prototype.toString\<close>, which the template literal of the catch block calls.\<close>

fun error_toString :: "js_error \<Rightarrow> string" where
  "error_toString (JsError name msg) =
     (if name = [] then msg else if msg = [] then name else name @ '': '' @ msg)"

text \<open>Truthiness, as \<^verbatim>\<open>!x\<close>, \<^verbatim>\<open>x || y\<close> and \<^verbatim>\<open>x && y\<close> test it.\<close>

fun truthy :: "jsvalue \<Rightarrow> bool" where
  "truthy JUndefined = False"
| "truthy JNull = False"
| "truthy (JBool b) = b"
| "truthy (JNumber r) = (r \<noteq> ''0'' \<and> r \<noteq> ''NaN'')"
| "truthy (JString s) = (s \<noteq> [])"
| "truthy (JArray xs) = True"
| "truthy (JObject kvs) = True"

definition js_or :: "jsvalue \<Rightarrow> jsvalue \<Rightarrow> jsvalue" where
  "js_or a b = (if truthy a then a else b)"





text \<open>
  A template literal whose substitutions are already converted: the literal chunks with
  the converted substitutions between them.
\<close>

fun template_literal :: "string list \<Rightarrow> string list \<Rightarrow> string" where
  "template_literal (q # qs) (t # ts) = q @ t @ template_literal qs ts"
| "template_literal (q # qs) [] = q"
| "template_literal [] ts = []"







text \<open>
  Reading a property \<^verbatim>\<open>v.k\<close>. On \<^verbatim>\<open>null\<close> and \<^verbatim>\<open>undefined\<close> it throws a TypeError
  (the message is the engine's; V8's is used); on an object it is the own property or
  \<^verbatim>\<open>undefined\<close>; on every other value it is \<^verbatim>\<open>undefined\<close> for the names this component
  reads (\<^verbatim>\<open>session_id\<close>, \<^verbatim>\<open>reply\<close>, \<^verbatim>\<open>avatar_state\<close>, \<^verbatim>\<open>debug\<close>, \<^verbatim>\<open>affect_state\<close>), none
  of which a prototype defines.
\<close>

fun js_get :: "jsvalue \<Rightarrow> string \<Rightarrow> js_error + jsvalue" where
  "js_get JUndefined k =
     Inl (JsError ''TypeError'' (''Cannot read properties of undefined (reading '' @ [CHR 0x27] @ k @ [CHR 0x27] @ '')''))"
| "js_get JNull k =
     Inl (JsError ''TypeError'' (''Cannot read properties of null (reading '' @ [CHR 0x27] @ k @ [CHR 0x27] @ '')''))"
| "js_get (JObject kvs) k = Inr (case map_of (rev kvs) k of None \<Rightarrow> JUndefined | Some v \<Rightarrow> v)"
| "js_get v k = Inr JUndefined"

section \<open>String.prototype.trim\<close>

text \<open>
  The white space and line terminators that \<^verbatim>\<open>trim\<close> strips, among the code units
  below 256: TAB, LF, VT, FF, CR, SP and NBSP.
\<close>

definition is_whitespace :: "char \<Rightarrow> bool" where
  "is_whitespace c = (of_char c \<in> {9, 10, 11, 12, 13, 32, 160 :: nat})"

definition trim :: "string \<Rightarrow> string" where
  "trim s = rev (dropWhile is_whitespace (rev (dropWhile is_whitespace s)))"

section \<open>The component's state\<close>

record message =
  role :: string
  content :: jsvalue

text \<open>The seven \<^verbatim>\<open>useState\<close> cells of \<^verbatim>\<open>App\<close>.\<close>

record app_state =
  messages :: "message list"
  input :: string
  sessionId :: jsvalue
  avatarState :: jsvalue
  affect :: string
  affectState :: jsvalue
  debug :: jsvalue

definition AVATAR_STATES :: "string list" where
  "AVATAR_STATES = [''welcoming'', ''listening'', ''concerned'', ''supportive'', ''thinking'']"

text \<open>The first render: the initial value of every cell.\<close>

definition App_init :: app_state where
  "App_init =
     \<lparr> messages =
         [\<lparr> role = ''assistant'',
            content = JString (''Hello, I'' @ [CHR 0x27] @ ''m Dr. Lane. What would you like to talk about today?'') \<rparr>],
       input = [],
       sessionId = JNull,
       avatarState = JString ''welcoming'',
       affect = ''a little tense but open'',
       affectState = JString ''emotionally neutral'',
       debug = JObject [] \<rparr>"

section \<open>What a handler does: its effects in program order\<close>

text \<open>
  A handler closes over the state of the render it was created in and, as it runs, calls
  state setters and \<^verbatim>\<open>fetch\<close>. Its run is the list of these calls in program order.
  \<open>SetMessages\<close> is \<^verbatim>\<open>setMessages(value)\<close>; \<open>AppendMessage\<close> is the functional form
  \<^verbatim>\<open>setMessages(prev => [...prev, m])\<close>, which reads the state current when it is applied.
  \<open>Fetch r\<close> is the call of \<^verbatim>\<open>fetch\<close> with the request \<open>r\<close>.
\<close>

text \<open>
  The own property keys of an object in the order in which JavaScript enumerates them:
  the array indices (canonical decimal numerals below \<open>2\<^sup>3\<^sup>2 - 1\<close>) in ascending order,
  then the other keys in the order in which they were first added.
\<close>

definition is_digit :: "char \<Rightarrow> bool" where
  "is_digit c = (48 \<le> (of_char c :: nat) \<and> (of_char c :: nat) \<le> 57)"

fun digits_less :: "string \<Rightarrow> string \<Rightarrow> bool" where
  "digits_less (x # xs) (y # ys) =
     ((of_char x :: nat) < of_char y \<or> (x = y \<and> digits_less xs ys))"
| "digits_less xs ys = False"

definition index_less :: "string \<Rightarrow> string \<Rightarrow> bool" where
  "index_less a b = (length a < length b \<or> (length a = length b \<and> digits_less a b))"

definition array_index :: "string \<Rightarrow> bool" where
  "array_index k =
     (k \<noteq> [] \<and> list_all is_digit k \<and> (k = ''0'' \<or> hd k \<noteq> CHR ''0'')
      \<and> index_less k ''4294967295'')"

fun insert_index :: "string \<Rightarrow> string list \<Rightarrow> string list" where
  "insert_index k [] = [k]"
| "insert_index k (j # js) = (if index_less k j then k # j # js else j # insert_index k js)"

definition own_keys :: "(string \<times> jsvalue) list \<Rightarrow> string list" where
  "own_keys kvs =
     (let ks = rev (remdups (rev (map fst kvs)))
      in foldr insert_index (filter array_index ks) [] @ filter (\<lambda>k. \<not> array_index k) ks)"

definition own_properties :: "(string \<times> jsvalue) list \<Rightarrow> (string \<times> jsvalue) list" where
  "own_properties kvs =
     map (\<lambda>k. (k, case map_of (rev kvs) k of None \<Rightarrow> JUndefined | Some v \<Rightarrow> v)) (own_keys kvs)"

text \<open>
  What \<^verbatim>\<open>JSON.stringify\<close> writes for a value, as the value its text denotes: a number
  that is not finite (\<^verbatim>\<open>JSON.parse\<close> reads \<^verbatim>\<open>1e999\<close> as \<^verbatim>\<open>Infinity\<close>) is written as \<^verbatim>\<open>null\<close>,
  an \<^verbatim>\<open>undefined\<close> array element as \<^verbatim>\<open>null\<close>, and an object by its own properties in
  enumeration order without those whose value is \<^verbatim>\<open>undefined\<close>.
\<close>

definition non_finite :: "string \<Rightarrow> bool" where
  "non_finite r = (r = ''Infinity'' \<or> r = ''-Infinity'' \<or> r = ''NaN'')"

fun json_of :: "jsvalue \<Rightarrow> jsvalue" where
  "json_of (JNumber r) = (if non_finite r then JNull else JNumber r)"
| "json_of (JArray xs) = JArray (map (\<lambda>v. if v = JUndefined then JNull else json_of v) xs)"
| "json_of (JObject kvs) =
     JObject (filter (\<lambda>kv. snd kv \<noteq> JUndefined)
       (own_properties (map (\<lambda>kv. (fst kv, json_of (snd kv))) kvs)))"
| "json_of v = v"

text \<open>
  \<^verbatim>\<open>JSON.stringify\<close> of an object literal with the properties \<open>props\<close>: the members of
  the text it produces, in order.
\<close>

definition JSON_stringify :: "(string \<times> jsvalue) list \<Rightarrow> (string \<times> jsvalue) list" where
  "JSON_stringify props = (case json_of (JObject props) of JObject ms \<Rightarrow> ms | _ \<Rightarrow> [])"

text \<open>The arguments of \<^verbatim>\<open>fetch\<close>: the URL, and the \<^verbatim>\<open>method\<close>, \<^verbatim>\<open>headers\<close> and \<^verbatim>\<open>body\<close> options.\<close>

record request =
  req_url :: string
  req_method :: string
  req_headers :: "(string \<times> string) list"
  req_body :: "(string \<times> jsvalue) list"

datatype effect =
    SetMessages "message list"
  | AppendMessage message
  | SetInput string
  | SetSessionId jsvalue
  | SetAvatarState jsvalue
  | SetDebug jsvalue
  | SetAffectState jsvalue
  | Fetch request

fun apply_effect :: "app_state \<Rightarrow> effect \<Rightarrow> app_state" where
  "apply_effect st (SetMessages ms) = st\<lparr>messages := ms\<rparr>"
| "apply_effect st (AppendMessage m) = st\<lparr>messages := messages st @ [m]\<rparr>"
| "apply_effect st (SetInput s) = st\<lparr>input := s\<rparr>"
| "apply_effect st (SetSessionId v) = st\<lparr>sessionId := v\<rparr>"
| "apply_effect st (SetAvatarState v) = st\<lparr>avatarState := v\<rparr>"
| "apply_effect st (SetDebug v) = st\<lparr>debug := v\<rparr>"
| "apply_effect st (SetAffectState v) = st\<lparr>affectState := v\<rparr>"
| "apply_effect st (Fetch r) = st"

definition run_effects :: "effect list \<Rightarrow> app_state \<Rightarrow> app_state" where
  "run_effects es st = foldl apply_effect st es"

section \<open>handleSend\<close>

text \<open>
  How the awaited part of \<^verbatim>\<open>handleSend\<close> comes out: \<^verbatim>\<open>await fetch(...)\<close> throws,
  \<^verbatim>\<open>await res.json()\<close> throws, or the body parses to a value.
\<close>

datatype outcome =
    FetchRejected js_error
  | JsonRejected js_error
  | Parsed jsvalue

text \<open>
  A statement of the \<^verbatim>\<open>try\<close> block: the setter calls it made, and the error it threw,
  if any. Setter calls made before a throw stay made.
\<close>

type_synonym stmt = "effect list \<times> js_error option"

fun run_stmts :: "stmt list \<Rightarrow> stmt" where
  "run_stmts [] = ([], None)"
| "run_stmts ((es, Some e) # rest) = (es, Some e)"
| "run_stmts ((es, None) # rest) = (es @ fst (run_stmts rest), snd (run_stmts rest))"

text \<open>A statement that evaluates one expression and, unless that throws, calls setters.\<close>

definition eval_then :: "js_error + jsvalue \<Rightarrow> (jsvalue \<Rightarrow> effect list) \<Rightarrow> stmt" where
  "eval_then r f = (case r of Inl e \<Rightarrow> ([], Some e) | Inr v \<Rightarrow> (f v, None))"

text \<open>
  Lines 46 to 55: the statements after \<^verbatim>\<open>const data = await res.json()\<close>. \<open>c\<close> is the
  state the handler closed over: \<^verbatim>\<open>avatarState\<close> on line 51 is that render's value.
\<close>

definition try_body :: "app_state \<Rightarrow> jsvalue \<Rightarrow> stmt" where
  "try_body c data = run_stmts
     [ eval_then (js_get data ''session_id'') (\<lambda>v. [SetSessionId v]),
       eval_then (js_get data ''reply'')
         (\<lambda>v. [AppendMessage \<lparr> role = ''assistant'', content = v \<rparr>]),
       eval_then (js_get data ''avatar_state'')
         (\<lambda>v. [SetAvatarState (js_or v (avatarState c))]),
       eval_then (js_get data ''debug'') (\<lambda>v. [SetDebug (js_or v (JObject []))]),
       (case js_get data ''debug'' of
          Inl e \<Rightarrow> ([], Some e)
        | Inr d \<Rightarrow>
            if truthy d then eval_then (js_get d ''affect_state'')
                 (\<lambda>a. if truthy a then [SetAffectState a] else [])
            else ([], None)) ]"

text \<open>
  Lines 57 to 62: the \<^verbatim>\<open>catch\<close> block. The template literal converts the error object
  by \<^verbatim>\<open>Error.prototype.toString\<close>.
\<close>

definition catch_block :: "js_error \<Rightarrow> effect list" where
  "catch_block err =
     [AppendMessage
        \<lparr> role = ''assistant'',
          content = JString (template_literal [''(Error contacting backend: '', '')''] [error_toString err]) \<rparr>]"

text \<open>Lines 29 to 43: from the new message list to the call of \<^verbatim>\<open>fetch\<close>.\<close>

definition before_await :: "app_state \<Rightarrow> string \<Rightarrow> effect list" where
  "before_await c text =
     [ SetMessages (messages c @ [\<lparr> role = ''user'', content = JString text \<rparr>]),
       SetInput [],
       Fetch
         \<lparr> req_url = ''/api/chat'',
           req_method = ''POST'',
           req_headers = [(''Content-Type'', ''application/json'')],
           req_body = JSON_stringify
             [ (''session_id'', sessionId c),
               (''user_message'', JString text),
               (''affect'', JString (affect c)),
               (''avatar_state'', avatarState c) ] \<rparr> ]"

text \<open>Lines 44 to 62: what runs once the awaited calls have settled.\<close>

definition after_await :: "app_state \<Rightarrow> outcome \<Rightarrow> effect list" where
  "after_await c oc =
     (case oc of
        FetchRejected err \<Rightarrow> catch_block err
      | JsonRejected err \<Rightarrow> catch_block err
      | Parsed data \<Rightarrow>
          (case try_body c data of
             (es, None) \<Rightarrow> es
           | (es, Some err) \<Rightarrow> es @ catch_block err))"

text \<open>
  Lines 25 to 63. \<^verbatim>\<open>!text\<close> on a string holds exactly for the empty string.
\<close>

definition handleSend :: "app_state \<Rightarrow> outcome \<Rightarrow> effect list" where
  "handleSend c oc =
     (let text = trim (input c) in
      if text = [] then []
      else before_await c text @ after_await c oc)"

section \<open>The handlers of the rendered elements\<close>

text \<open>
  A turn in which nothing else happens between the click and the settling of the
  request: the handler's effects applied, in order, to the state it closed over.
\<close>

definition turn :: "app_state \<Rightarrow> outcome \<Rightarrow> app_state" where
  "turn st oc = run_effects (handleSend st oc) st"

text \<open>
  What the user can do, each with the awaited outcome where a request may follow:
  type into the textarea (\<^verbatim>\<open>onChange\<close>), click the \<open>i\<close>-th avatar button (one button per
  element of \<^verbatim>\<open>AVATAR_STATES\<close>; there is no other), click Send, press a key in the textarea
  (\<^verbatim>\<open>handleKeyDown\<close>: Enter without Shift sends). An event is handled by the handlers of
  the latest render, which close over the current state.
\<close>

datatype event =
    Change string
  | ClickAvatar nat
  | ClickSend outcome
  | KeyDown string bool outcome

fun event_effects :: "app_state \<Rightarrow> event \<Rightarrow> effect list" where
  "event_effects st (Change s) = [SetInput s]"
| "event_effects st (ClickAvatar i) =
     (if i < length AVATAR_STATES then [SetAvatarState (JString (AVATAR_STATES ! i))] else [])"
| "event_effects st (ClickSend oc) = handleSend st oc"
| "event_effects st (KeyDown key shift oc) =
     (if key = ''Enter'' \<and> \<not> shift then handleSend st oc else [])"

definition step :: "app_state \<Rightarrow> event \<Rightarrow> app_state" where
  "step st ev = run_effects (event_effects st ev) st"

definition run_events :: "app_state \<Rightarrow> event list \<Rightarrow> app_state" where
  "run_events st evs = foldl step st evs"

text \<open>A sequence of turns: the user types \<open>inp\<close>, sends, and the request settles as \<open>oc\<close>.\<close>

fun turns :: "app_state \<Rightarrow> (string \<times> outcome) list \<Rightarrow> app_state" where
  "turns st [] = st"
| "turns st ((inp, oc) # ts) = turns (turn (st\<lparr>input := inp\<rparr>) oc) ts"

text \<open>The requests a run of effects issues, and those of a run of events with their outcomes.\<close>

fun fetches :: "effect list \<Rightarrow> request list" where
  "fetches [] = []"
| "fetches (Fetch r # es) = r # fetches es"
| "fetches (e # es) = fetches es"

fun event_outcome :: "event \<Rightarrow> outcome option" where
  "event_outcome (ClickSend oc) = Some oc"
| "event_outcome (KeyDown key shift oc) = Some oc"
| "event_outcome ev = None"

fun exchanges :: "app_state \<Rightarrow> event list \<Rightarrow> (request \<times> outcome) list" where
  "exchanges st [] = []"
| "exchanges st (ev # evs) =
     (case event_outcome ev of
        None \<Rightarrow> []
      | Some oc \<Rightarrow> map (\<lambda>r. (r, oc)) (fetches (event_effects st ev)))
     @ exchanges (step st ev) evs"

section \<open>Requests in flight\<close>

text \<open>
  \<^verbatim>\<open>handleSend\<close> is asynchronous: between its call of \<^verbatim>\<open>fetch\<close> and the settling of the
  request the user can type, click and send again. A configuration is the current state
  with the closures of the handlers still waiting (each the state of the render that
  created the handler). \<open>ISend\<close> runs a handler up to its \<^verbatim>\<open>await\<close>; \<open>ISettle k oc\<close> resumes
  the \<open>k\<close>-th waiting handler with outcome \<open>oc\<close>.
\<close>

datatype ievent =
    IChange string
  | IClickAvatar nat
  | ISend
  | ISettle nat outcome

type_synonym config = "app_state \<times> app_state list"

fun istep :: "config \<Rightarrow> ievent \<Rightarrow> config" where
  "istep (st, ps) (IChange s) = (run_effects [SetInput s] st, ps)"
| "istep (st, ps) (IClickAvatar i) =
     (run_effects (event_effects st (ClickAvatar i)) st, ps)"
| "istep (st, ps) ISend =
     (let text = trim (input st) in
      if text = [] then (st, ps)
      else (run_effects (before_await st text) st, ps @ [st]))"
| "istep (st, ps) (ISettle k oc) =
     (if k < length ps
      then (run_effects (after_await (ps ! k) oc) st, take k ps @ drop (Suc k) ps)
      else (st, ps))"

definition irun :: "config \<Rightarrow> ievent list \<Rightarrow> config" where
  "irun cfg evs = foldl istep cfg evs"

section \<open>The rendered avatar\<close>



section \<open>Notions the properties are stated with\<close>

text \<open>The property \<open>k\<close> of \<open>v\<close> where reading it does not throw.\<close>

definition field :: "jsvalue \<Rightarrow> string \<Rightarrow> jsvalue" where
  "field v k = (case js_get v k of Inl e \<Rightarrow> JUndefined | Inr x \<Rightarrow> x)"

definition nullish :: "jsvalue \<Rightarrow> bool" where
  "nullish v = (v = JNull \<or> v = JUndefined)"

text \<open>The error a settled request makes \<^verbatim>\<open>handleSend\<close> catch, if any.\<close>

definition thrown :: "app_state \<Rightarrow> outcome \<Rightarrow> js_error option" where
  "thrown c oc =
     (case oc of
        FetchRejected err \<Rightarrow> Some err
      | JsonRejected err \<Rightarrow> Some err
      | Parsed data \<Rightarrow> snd (try_body c data))"

definition is_nonempty_string :: "jsvalue \<Rightarrow> bool" where
  "is_nonempty_string v = (case v of JString s \<Rightarrow> s \<noteq> [] | _ \<Rightarrow> False)"

definition candidate :: "jsvalue \<Rightarrow> bool" where
  "candidate v = (case v of JString s \<Rightarrow> s \<in> set AVATAR_STATES | _ \<Rightarrow> False)"

text \<open>The \<^verbatim>\<open>avatar_state\<close> a settled request carries (\<^verbatim>\<open>undefined\<close> when it carries none).\<close>

definition avatar_hint :: "outcome \<Rightarrow> jsvalue" where
  "avatar_hint oc = (case oc of Parsed data \<Rightarrow> field data ''avatar_state'' | _ \<Rightarrow> JUndefined)"

text \<open>
  A value as \<^verbatim>\<open>JSON.stringify\<close> sends it as an object's property: not at all when it is
  \<^verbatim>\<open>undefined\<close>, and else as \<open>json_of\<close> writes it.
\<close>

definition sent :: "jsvalue \<Rightarrow> jsvalue option" where
  "sent v = (if v = JUndefined then None else Some (json_of v))"

text \<open>The message the catch block shows for the error \<open>err\<close>.\<close>

definition error_message :: "js_error \<Rightarrow> message" where
  "error_message err =
     \<lparr> role = ''assistant'',
       content = JString (''(Error contacting backend: '' @ error_toString err @ '')'') \<rparr>"

text \<open>
  A successful turn: the trimmed input is not empty, the body parses, and the statements
  after it run without throwing (the parsed value is neither \<^verbatim>\<open>null\<close> nor \<^verbatim>\<open>undefined\<close>).
\<close>

definition successful :: "string \<Rightarrow> outcome \<Rightarrow> bool" where
  "successful inp oc =
     (trim inp \<noteq> [] \<and> (case oc of Parsed data \<Rightarrow> \<not> nullish data | _ \<Rightarrow> False))"

text \<open>
  The history a turn is said to add: the user's message, then the assistant's reply.
\<close>

definition turn_messages :: "string \<times> outcome \<Rightarrow> message list" where
  "turn_messages t =
     [ \<lparr> role = ''user'', content = JString (trim (fst t)) \<rparr>,
       \<lparr> role = ''assistant'',
         content = (case snd t of Parsed data \<Rightarrow> field data ''reply'' | _ \<Rightarrow> JUndefined) \<rparr> ]"

text \<open>
  The session id a settled request hands to the component: the \<^verbatim>\<open>session_id\<close> of the
  parsed body when the statements after it run, none when something was thrown.
\<close>

definition returned_session_id :: "outcome \<Rightarrow> jsvalue option" where
  "returned_session_id oc =
     (case oc of
        Parsed data \<Rightarrow> (case js_get data ''session_id'' of Inl e \<Rightarrow> None | Inr v \<Rightarrow> Some v)
      | _ \<Rightarrow> None)"

text \<open>The session id carried forward over settled requests, starting from \<open>s\<close>.\<close>

fun carried :: "jsvalue \<Rightarrow> outcome list \<Rightarrow> jsvalue" where
  "carried s [] = s"
| "carried s (oc # ocs) =
     carried (case returned_session_id oc of None \<Rightarrow> s | Some v \<Rightarrow> v) ocs"

text \<open>
  The backend's contract for \<^verbatim>\<open>avatar_state\<close>: a string, or nothing that counts
  (absent, \<^verbatim>\<open>null\<close>, or another falsy value).
\<close>

definition avatar_typed :: "ievent \<Rightarrow> bool" where
  "avatar_typed ev =
     (case ev of
        ISettle k oc \<Rightarrow> (case avatar_hint oc of JString s \<Rightarrow> True | v \<Rightarrow> \<not> truthy v)
      | _ \<Rightarrow> True)"

section \<open>Running effects\<close>

lemma run_effects_Nil [simp]: "run_effects [] st = st"
  by (simp add: run_effects_def)

lemma run_effects_Cons [simp]: "run_effects (e # es) st = run_effects es (apply_effect st e)"
  by (simp add: run_effects_def)

lemma run_effects_append [simp]:
  "run_effects (es @ fs) st = run_effects fs (run_effects es st)"
  by (simp add: run_effects_def)

lemma fetches_append [simp]: "fetches (es @ fs) = fetches es @ fetches fs"
  by (induction es rule: fetches.induct) simp_all

text \<open>No setter of the cell \<^verbatim>\<open>affect\<close> is ever called: it keeps its initial value.\<close>

lemma affect_run_effects: "affect (run_effects es st) = affect st"
proof (induction es arbitrary: st)
  case Nil
  then show ?case by simp
next
  case (Cons e es)
  then show ?case by (cases e) simp_all
qed

lemma affect_run_events: "affect (run_events st evs) = affect st"
  by (induction evs arbitrary: st) (simp_all add: run_events_def step_def affect_run_effects)

section \<open>The statements after the await\<close>

lemma js_get_nullish: "nullish v \<Longrightarrow> \<exists>e. js_get v k = Inl e"
  by (auto simp: nullish_def)

lemma js_get_field: "\<not> nullish v \<Longrightarrow> js_get v k = Inr (field v k)"
  by (cases v) (simp_all add: nullish_def field_def)

lemma truthy_not_nullish: "truthy v \<Longrightarrow> \<not> nullish v"
  by (auto simp: nullish_def)

text \<open>On \<^verbatim>\<open>null\<close> the first statement throws, before any setter is called.\<close>

lemma try_body_nullish: "nullish data \<Longrightarrow> \<exists>e. try_body c data = ([], Some e)"
  by (auto simp: nullish_def try_body_def eval_then_def)

text \<open>On every other value no statement throws, and the setters are called in order.\<close>

lemma try_body_ok:
  "\<not> nullish data \<Longrightarrow>
   try_body c data =
     ([ SetSessionId (field data ''session_id''),
        AppendMessage \<lparr> role = ''assistant'', content = field data ''reply'' \<rparr>,
        SetAvatarState (js_or (field data ''avatar_state'') (avatarState c)),
        SetDebug (js_or (field data ''debug'') (JObject [])) ]
      @ (if truthy (field data ''debug'') \<and> truthy (field (field data ''debug'') ''affect_state'')
         then [SetAffectState (field (field data ''debug'') ''affect_state'')] else []),
      None)"
  by (simp add: try_body_def eval_then_def js_get_field truthy_not_nullish)

section \<open>One run of handleSend\<close>

lemma handleSend_empty: "trim (input c) = [] \<Longrightarrow> handleSend c oc = []"
  by (simp add: handleSend_def)

lemma handleSend_nonempty:
  "trim (input c) \<noteq> [] \<Longrightarrow>
   handleSend c oc = before_await c (trim (input c)) @ after_await c oc"
  by (simp add: handleSend_def Let_def)

lemma catch_block_eq: "catch_block err = [AppendMessage (error_message err)]"
  by (simp add: catch_block_def error_message_def)

lemma after_await_thrown: "thrown c oc = Some err \<Longrightarrow> after_await c oc = catch_block err"
proof (cases oc)
  case (Parsed data)
  assume t: "thrown c oc = Some err"
  show ?thesis
  proof (cases "nullish data")
    case True
    then obtain e where e: "try_body c data = ([], Some e)"
      using try_body_nullish by blast
    with t Parsed have "e = err" by (simp add: thrown_def)
    with e Parsed show ?thesis by (simp add: after_await_def)
  next
    case False
    with t Parsed show ?thesis by (simp add: thrown_def try_body_ok)
  qed
qed (simp_all add: thrown_def after_await_def)

lemma after_await_Parsed:
  "\<not> nullish data \<Longrightarrow> after_await c (Parsed data) = fst (try_body c data)"
  by (simp add: after_await_def try_body_ok)

lemma thrown_Parsed: "thrown c (Parsed data) = None \<longleftrightarrow> \<not> nullish data"
  using try_body_nullish[of data c] by (auto simp: thrown_def try_body_ok)

text \<open>A turn that catches an error, as a state change.\<close>

lemma turn_thrown:
  assumes "trim (input st) \<noteq> []" and "thrown st oc = Some err"
  shows "turn st oc =
     st\<lparr> messages := messages st @
            [\<lparr> role = ''user'', content = JString (trim (input st)) \<rparr>, error_message err],
         input := [] \<rparr>"
  using assms
  by (simp add: turn_def handleSend_nonempty after_await_thrown catch_block_eq before_await_def)

text \<open>A turn whose statements all run, as a state change.\<close>

lemma turn_ok:
  assumes "trim (input st) \<noteq> []" and "\<not> nullish data"
  shows "turn st (Parsed data) =
     st\<lparr> messages := messages st @
            [ \<lparr> role = ''user'', content = JString (trim (input st)) \<rparr>,
              \<lparr> role = ''assistant'', content = field data ''reply'' \<rparr> ],
         input := [],
         sessionId := field data ''session_id'',
         avatarState := js_or (field data ''avatar_state'') (avatarState st),
         debug := js_or (field data ''debug'') (JObject []),
         affectState :=
           (if truthy (field data ''debug'') \<and> truthy (field (field data ''debug'') ''affect_state'')
            then field (field data ''debug'') ''affect_state'' else affectState st) \<rparr>"
  using assms
  by (simp add: turn_def handleSend_nonempty after_await_Parsed try_body_ok before_await_def)

lemma turn_empty: "trim (input st) = [] \<Longrightarrow> turn st oc = st"
  by (simp add: turn_def handleSend_empty)

text \<open>A turn of \<open>turns\<close> is the user typing and then clicking Send.\<close>

lemma turn_as_events: "run_events st [Change inp, ClickSend oc] = turn (st\<lparr>input := inp\<rparr>) oc"
  by (simp add: run_events_def step_def turn_def)

lemma trim_hi: "trim ''hi'' = ''hi''"
  by (simp add: trim_def is_whitespace_def)

section \<open>Empty input\<close>

text \<open>
  Claim C3. When the input trims to the empty string, \<^verbatim>\<open>handleSend\<close> returns at once:
  it calls no setter and no \<^verbatim>\<open>fetch\<close>, so no message is appended, no request is sent, and
  the state (messages, input, sessionId, avatarState, affect, affectState, debug) is what
  it was. This holds for the Send button, for Enter in the textarea, and while other
  requests are in flight.
\<close>

theorem empty_input_rejected:
  assumes "trim (input st) = []"
  shows "handleSend st oc = [] \<and> fetches (handleSend st oc) = [] \<and> turn st oc = st
    \<and> step st (ClickSend oc) = st \<and> step st (KeyDown key shift oc) = st
    \<and> istep (st, ps) ISend = (st, ps)"
  using assms by (simp add: handleSend_empty turn_def step_def)

theorem empty_input_rejected_witness:
  "trim (input (App_init\<lparr>input := ''  ''\<rparr>)) = []
   \<and> handleSend (App_init\<lparr>input := ''  ''\<rparr>) (Parsed (JObject [(''reply'', JString ''x'')])) = []
   \<and> turn (App_init\<lparr>input := ''  ''\<rparr>) (Parsed (JObject [(''reply'', JString ''x'')]))
       = App_init\<lparr>input := ''  ''\<rparr>"
proof -
  have h: "trim (input (App_init\<lparr>input := ''  ''\<rparr>)) = []"
    by (simp add: trim_def is_whitespace_def)
  show ?thesis using h empty_input_rejected [OF h] by simp
qed

section \<open>A turn that fails\<close>

text \<open>
  Claim C4, as the code has it. When \<^verbatim>\<open>handleSend\<close> catches an error (\<^verbatim>\<open>fetch\<close> throws,
  \<^verbatim>\<open>res.json()\<close> throws, or the body is \<^verbatim>\<open>null\<close>), no setter of sessionId, avatarState,
  affectState or debug is called: these are what they were before the turn. What changes
  is what the handler did before the request, appending the user's message and clearing
  the input, and then one appended assistant message that shows the error.
\<close>

theorem failed_turn_state:
  assumes "trim (input st) \<noteq> []" and "thrown st oc = Some err"
  shows "handleSend st oc = before_await st (trim (input st)) @ [AppendMessage (error_message err)]
    \<and> sessionId (turn st oc) = sessionId st
    \<and> avatarState (turn st oc) = avatarState st
    \<and> affectState (turn st oc) = affectState st
    \<and> debug (turn st oc) = debug st
    \<and> affect (turn st oc) = affect st
    \<and> input (turn st oc) = []
    \<and> messages (turn st oc) =
        messages st @ [\<lparr> role = ''user'', content = JString (trim (input st)) \<rparr>, error_message err]"
  using assms
  by (simp add: turn_thrown handleSend_nonempty after_await_thrown catch_block_eq)

theorem failed_turn_state_witness:
  "trim (input (App_init\<lparr>input := ''hi''\<rparr>)) \<noteq> []
   \<and> thrown (App_init\<lparr>input := ''hi''\<rparr>) (FetchRejected (JsError ''TypeError'' ''Failed to fetch''))
       = Some (JsError ''TypeError'' ''Failed to fetch'')
   \<and> sessionId (turn (App_init\<lparr>input := ''hi''\<rparr>) (FetchRejected (JsError ''TypeError'' ''Failed to fetch''))) = JNull
   \<and> messages (turn (App_init\<lparr>input := ''hi''\<rparr>) (FetchRejected (JsError ''TypeError'' ''Failed to fetch''))) =
       messages App_init @
         [ \<lparr> role = ''user'', content = JString ''hi'' \<rparr>,
           \<lparr> role = ''assistant'',
             content = JString ''(Error contacting backend: TypeError: Failed to fetch)'' \<rparr> ]"
proof -
  have h1: "trim (input (App_init\<lparr>input := ''hi''\<rparr>)) \<noteq> []"
    by (simp add: trim_hi)
  have h2: "thrown (App_init\<lparr>input := ''hi''\<rparr>) (FetchRejected (JsError ''TypeError'' ''Failed to fetch''))
       = Some (JsError ''TypeError'' ''Failed to fetch'')"
    by (simp add: thrown_def)
  show ?thesis
    using h1 h2 failed_turn_state [OF h1 h2]
    by (simp add: trim_hi error_message_def App_init_def)
qed

text \<open>
  The error message is not the only change: after a rejected \<^verbatim>\<open>fetch\<close> on the input
  \<^verbatim>\<open>hi\<close> the history is two messages longer than before the turn, and the input is
  no longer what it was.
\<close>

theorem failed_turn_counterexample:
  "messages (turn (App_init\<lparr>input := ''hi''\<rparr>) (FetchRejected (JsError ''TypeError'' ''Failed to fetch'')))
     \<noteq> messages (App_init\<lparr>input := ''hi''\<rparr>) @ [error_message (JsError ''TypeError'' ''Failed to fetch'')]
   \<and> length (messages (turn (App_init\<lparr>input := ''hi''\<rparr>) (FetchRejected (JsError ''TypeError'' ''Failed to fetch''))))
     = length (messages (App_init\<lparr>input := ''hi''\<rparr>)) + 2
   \<and> input (turn (App_init\<lparr>input := ''hi''\<rparr>) (FetchRejected (JsError ''TypeError'' ''Failed to fetch'')))
     \<noteq> input (App_init\<lparr>input := ''hi''\<rparr>)"
proof -
  have "turn (App_init\<lparr>input := ''hi''\<rparr>) (FetchRejected (JsError ''TypeError'' ''Failed to fetch'')) =
    App_init\<lparr> messages := messages App_init @
       [\<lparr> role = ''user'', content = JString ''hi'' \<rparr>, error_message (JsError ''TypeError'' ''Failed to fetch'')],
       input := [] \<rparr>"
    using turn_thrown [of "App_init\<lparr>input := ''hi''\<rparr>" "FetchRejected (JsError ''TypeError'' ''Failed to fetch'')"
        "JsError ''TypeError'' ''Failed to fetch''"]
    by (simp add: trim_hi thrown_def)
  then show ?thesis by simp
qed

section \<open>The fresh component\<close>

text \<open>
  Claim C5, as the code has it. Before any turn the affect state is the neutral default
  \<^verbatim>\<open>emotionally neutral\<close>, the avatar state is \<^verbatim>\<open>welcoming\<close>, which is one of
  \<^verbatim>\<open>AVATAR_STATES\<close>, and the history holds exactly one message, the assistant's greeting,
  and no user message; no session id is known yet.
\<close>

theorem fresh_state:
  "affectState App_init = JString ''emotionally neutral''
   \<and> avatarState App_init = JString ''welcoming''
   \<and> candidate (avatarState App_init)
   \<and> messages App_init =
       [\<lparr> role = ''assistant'',
          content = JString (''Hello, I'' @ [CHR 0x27] @ ''m Dr. Lane. What would you like to talk about today?'') \<rparr>]
   \<and> length (messages App_init) = 1
   \<and> filter (\<lambda>m. role m = ''user'') (messages App_init) = []
   \<and> sessionId App_init = JNull
   \<and> input App_init = []
   \<and> debug App_init = JObject []"
  by (simp add: App_init_def candidate_def AVATAR_STATES_def)

text \<open>The history of the fresh component is not empty.\<close>

theorem fresh_history_counterexample: "messages App_init \<noteq> []"
  by (simp add: App_init_def)

section \<open>The avatar image\<close>




section \<open>The avatar state after a turn\<close>

text \<open>A turn leaves the avatar state alone or sets it to the truthy value the response carries.\<close>

lemma avatarState_turn:
  "avatarState (turn st oc) = avatarState st \<or>
   (truthy (avatar_hint oc) \<and> avatarState (turn st oc) = avatar_hint oc)"
proof (cases "trim (input st) = []")
  case True
  then show ?thesis by (simp add: turn_empty)
next
  case ne: False
  show ?thesis
  proof (cases "thrown st oc")
    case (Some err)
    with ne show ?thesis by (simp add: turn_thrown)
  next
    case None
    then obtain data where oc: "oc = Parsed data"
      by (cases oc) (simp_all add: thrown_def)
    with None have "\<not> nullish data" by (simp add: thrown_Parsed)
    with ne oc show ?thesis
      by (simp add: turn_ok avatar_hint_def js_or_def)
  qed
qed

text \<open>
  Claim C1, as the code has it. The component stores the response's \<^verbatim>\<open>avatar_state\<close>
  unchecked: after a turn whose request was sent and whose response was processed without
  an error, the avatar state is the response's \<^verbatim>\<open>avatar_state\<close> when that is truthy; in
  every other case it is the avatar state held before the turn. So after a turn it is one
  of \<^verbatim>\<open>AVATAR_STATES\<close> provided it was one before the turn and the response's
  \<^verbatim>\<open>avatar_state\<close> is falsy or itself one of \<^verbatim>\<open>AVATAR_STATES\<close>.
\<close>

theorem avatar_candidate_after_turn:
  "avatarState (turn st oc) =
     (if trim (input st) \<noteq> [] \<and> thrown st oc = None \<and> truthy (avatar_hint oc)
      then avatar_hint oc else avatarState st)
   \<and> (candidate (avatarState st) \<and> (\<not> truthy (avatar_hint oc) \<or> candidate (avatar_hint oc))
        \<longrightarrow> candidate (avatarState (turn st oc)))"
proof -
  have stored: "avatarState (turn st oc) =
     (if trim (input st) \<noteq> [] \<and> thrown st oc = None \<and> truthy (avatar_hint oc)
      then avatar_hint oc else avatarState st)"
  proof (cases "trim (input st) = []")
    case True
    then show ?thesis by (simp add: turn_empty)
  next
    case ne: False
    show ?thesis
    proof (cases "thrown st oc")
      case (Some err)
      with ne show ?thesis by (simp add: turn_thrown)
    next
      case None
      then obtain data where oc: "oc = Parsed data"
        by (cases oc) (simp_all add: thrown_def)
      with None have "\<not> nullish data" by (simp add: thrown_Parsed)
      with ne oc None show ?thesis
        by (simp add: turn_ok avatar_hint_def js_or_def)
    qed
  qed
  then have "candidate (avatarState st) \<and> (\<not> truthy (avatar_hint oc) \<or> candidate (avatar_hint oc))
        \<longrightarrow> candidate (avatarState (turn st oc))"
    by auto
  with stored show ?thesis by (rule conjI)
qed

theorem avatar_candidate_after_turn_witness:
  "candidate (avatarState (App_init\<lparr>input := ''hi''\<rparr>))
   \<and> candidate (avatar_hint (Parsed (JObject [(''reply'', JString ''ok''), (''avatar_state'', JString ''listening'')])))
   \<and> avatarState (turn (App_init\<lparr>input := ''hi''\<rparr>)
        (Parsed (JObject [(''reply'', JString ''ok''), (''avatar_state'', JString ''listening'')])))
       = JString ''listening''
   \<and> candidate (avatarState (turn (App_init\<lparr>input := ''hi''\<rparr>)
        (Parsed (JObject [(''reply'', JString ''ok''), (''avatar_state'', JString ''listening'')]))))"
proof -
  let ?st = "App_init\<lparr>input := ''hi''\<rparr>"
  let ?oc = "Parsed (JObject [(''reply'', JString ''ok''), (''avatar_state'', JString ''listening'')])"
  have h1: "candidate (avatarState ?st)"
    by (simp add: App_init_def candidate_def AVATAR_STATES_def)
  have hint: "avatar_hint ?oc = JString ''listening''"
    by (simp add: avatar_hint_def field_def)
  have h2: "candidate (avatar_hint ?oc)"
    by (simp add: hint candidate_def AVATAR_STATES_def)
  have sent: "trim (input ?st) \<noteq> []" by (simp add: trim_hi)
  have processed: "thrown ?st ?oc = None"
    by (simp add: thrown_Parsed nullish_def)
  have "avatarState (turn ?st ?oc) = JString ''listening''"
    using avatar_candidate_after_turn [of ?st ?oc, THEN conjunct1] sent processed
    by (simp add: hint)
  moreover have "candidate (avatarState (turn ?st ?oc))"
    using avatar_candidate_after_turn [of ?st ?oc, THEN conjunct2] h1 h2 by blast
  ultimately show ?thesis using h1 h2 by blast
qed

text \<open>
  A response that names an avatar outside \<^verbatim>\<open>AVATAR_STATES\<close> (the backend chooses among
  the images of its avatar folder; the README names \<^verbatim>\<open>head_down\<close> as one) leaves the
  component with an avatar state outside the set.
\<close>

theorem avatar_candidate_counterexample:
  "\<not> candidate (avatarState (turn (App_init\<lparr>input := ''hi''\<rparr>)
      (Parsed (JObject [(''session_id'', JString ''s1''), (''reply'', JString ''Hello''),
                        (''avatar_state'', JString ''head_down'')]))))"
proof -
  have "\<not> nullish (JObject [(''session_id'', JString ''s1''), (''reply'', JString ''Hello''),
                        (''avatar_state'', JString ''head_down'')])"
    by (simp add: nullish_def)
  then show ?thesis
    by (simp add: turn_ok trim_hi field_def js_or_def candidate_def AVATAR_STATES_def)
qed

section \<open>The history after successful turns\<close>

lemma turn_successful:
  assumes "successful inp oc"
  shows "messages (turn (st\<lparr>input := inp\<rparr>) oc) = messages st @ turn_messages (inp, oc)"
proof -
  from assms obtain data where "oc = Parsed data" and "\<not> nullish data" and "trim inp \<noteq> []"
    by (cases oc) (simp_all add: successful_def)
  then show ?thesis by (simp add: turn_ok turn_messages_def)
qed

lemma turns_successful:
  "\<forall>t \<in> set ts. successful (fst t) (snd t) \<Longrightarrow>
   messages (turns st ts) = messages st @ concat (map turn_messages ts)"
proof (induction ts arbitrary: st)
  case Nil
  then show ?case by simp
next
  case (Cons t ts)
  obtain inp oc where t: "t = (inp, oc)" by (cases t)
  with Cons.prems have s: "successful inp oc" by simp
  from Cons.prems have "\<forall>t \<in> set ts. successful (fst t) (snd t)" by simp
  from Cons.IH [OF this] show ?case
    by (simp add: t turn_successful [OF s])
qed

lemma length_concat_turn_messages: "length (concat (map turn_messages ts)) = 2 * length ts"
  by (induction ts) (simp_all add: turn_messages_def)

text \<open>
  Claim C2, as the code has it. After \<open>N\<close> successful turns the history is the history
  before them followed by \<open>2 * N\<close> messages: for each turn, in order, the user's trimmed
  message and then the assistant's reply. Its length is the length before plus \<open>2 * N\<close>,
  which for the fresh component, whose history starts with the greeting, is \<open>1 + 2 * N\<close>.
\<close>

theorem history_after_turns:
  assumes "\<forall>t \<in> set ts. successful (fst t) (snd t)"
  shows "messages (turns st ts) = messages st @ concat (map turn_messages ts)
    \<and> length (messages (turns st ts)) = length (messages st) + 2 * length ts
    \<and> length (messages (turns App_init ts)) = 1 + 2 * length ts"
  using turns_successful [OF assms]
  by (simp add: length_concat_turn_messages App_init_def)

theorem history_after_turns_witness:
  "successful ''hi'' (Parsed (JObject [(''reply'', JString ''Hello'')]))
   \<and> successful '' and you? '' (Parsed (JObject [(''reply'', JString ''Fine'')]))
   \<and> messages (turns App_init
        [ (''hi'', Parsed (JObject [(''reply'', JString ''Hello'')])),
          ('' and you? '', Parsed (JObject [(''reply'', JString ''Fine'')])) ])
     = messages App_init @
        [ \<lparr> role = ''user'', content = JString ''hi'' \<rparr>,
          \<lparr> role = ''assistant'', content = JString ''Hello'' \<rparr>,
          \<lparr> role = ''user'', content = JString ''and you?'' \<rparr>,
          \<lparr> role = ''assistant'', content = JString ''Fine'' \<rparr> ]
   \<and> length (messages (turns App_init
        [ (''hi'', Parsed (JObject [(''reply'', JString ''Hello'')])),
          ('' and you? '', Parsed (JObject [(''reply'', JString ''Fine'')])) ])) = 5"
proof -
  have t2: "trim '' and you? '' = ''and you?''"
    by (simp add: trim_def is_whitespace_def)
  have h1: "successful ''hi'' (Parsed (JObject [(''reply'', JString ''Hello'')]))"
    by (simp add: successful_def trim_hi nullish_def)
  have h2: "successful '' and you? '' (Parsed (JObject [(''reply'', JString ''Fine'')]))"
    by (simp add: successful_def t2 nullish_def)
  have h: "\<forall>t \<in> set [ (''hi'', Parsed (JObject [(''reply'', JString ''Hello'')])),
          ('' and you? '', Parsed (JObject [(''reply'', JString ''Fine'')])) ]. successful (fst t) (snd t)"
    using h1 h2 by simp
  show ?thesis
    using h1 h2 history_after_turns [OF h, of App_init]
    by (simp add: turn_messages_def trim_hi t2 field_def)
qed

text \<open>
  One successful turn on the fresh component leaves three messages, not two, and the
  first of them is the assistant's greeting, not a user message.
\<close>

theorem history_length_counterexample:
  "length (messages (turns App_init [(''hi'', Parsed (JObject [(''reply'', JString ''Hello'')]))]))
     \<noteq> 2 * length [(''hi'', Parsed (JObject [(''reply'', JString ''Hello'')]))]
   \<and> length (messages (turns App_init [(''hi'', Parsed (JObject [(''reply'', JString ''Hello'')]))])) = 3
   \<and> role (hd (messages (turns App_init [(''hi'', Parsed (JObject [(''reply'', JString ''Hello'')]))])))
       = ''assistant''"
proof -
  have "successful ''hi'' (Parsed (JObject [(''reply'', JString ''Hello'')]))"
    by (simp add: successful_def trim_hi nullish_def)
  then have "messages (turns App_init [(''hi'', Parsed (JObject [(''reply'', JString ''Hello'')]))])
      = messages App_init @ turn_messages (''hi'', Parsed (JObject [(''reply'', JString ''Hello'')]))"
    using turns_successful [of "[(''hi'', Parsed (JObject [(''reply'', JString ''Hello'')]))]" App_init]
    by simp
  then show ?thesis by (simp add: App_init_def turn_messages_def)
qed

section \<open>The request\<close>

lemma fetches_after_await: "fetches (after_await c oc) = []"
proof (cases "thrown c oc")
  case (Some err)
  then show ?thesis by (simp add: after_await_thrown catch_block_eq)
next
  case None
  then obtain data where oc: "oc = Parsed data"
    by (cases oc) (simp_all add: thrown_def)
  with None have "\<not> nullish data" by (simp add: thrown_Parsed)
  with oc show ?thesis by (simp add: after_await_Parsed try_body_ok)
qed

lemma fetches_handleSend:
  "fetches (handleSend c oc) =
     (if trim (input c) = [] then []
      else [\<lparr> req_url = ''/api/chat'',
              req_method = ''POST'',
              req_headers = [(''Content-Type'', ''application/json'')],
              req_body = JSON_stringify
                [ (''session_id'', sessionId c),
                  (''user_message'', JString (trim (input c))),
                  (''affect'', JString (affect c)),
                  (''avatar_state'', avatarState c) ] \<rparr>])"
  by (simp add: handleSend_empty handleSend_nonempty fetches_after_await before_await_def)

text \<open>The keys of the request's object literal are no array indices and differ.\<close>

lemma own_properties_body:
  "own_properties [(''session_id'', a), (''user_message'', b), (''affect'', c), (''avatar_state'', d)] =
     [(''session_id'', a), (''user_message'', b), (''affect'', c), (''avatar_state'', d)]"
  by (simp add: own_properties_def own_keys_def array_index_def is_digit_def)

lemma json_of_undefined: "json_of v = JUndefined \<longleftrightarrow> v = JUndefined"
  by (cases v) simp_all

lemma JSON_stringify_body:
  "JSON_stringify
      [(''session_id'', sid), (''user_message'', JString text), (''affect'', JString a), (''avatar_state'', av)] =
   (if sid = JUndefined then [] else [(''session_id'', json_of sid)])
   @ [(''user_message'', JString text), (''affect'', JString a)]
   @ (if av = JUndefined then [] else [(''avatar_state'', json_of av)])"
  by (simp add: JSON_stringify_def own_properties_body json_of_undefined)

lemma body_fields:
  "map_of (JSON_stringify
      [(''session_id'', sid), (''user_message'', JString text), (''affect'', JString a), (''avatar_state'', av)])
      ''session_id'' = sent sid"
  "map_of (JSON_stringify
      [(''session_id'', sid), (''user_message'', JString text), (''affect'', JString a), (''avatar_state'', av)])
      ''user_message'' = Some (JString text)"
  "map_of (JSON_stringify
      [(''session_id'', sid), (''user_message'', JString text), (''affect'', JString a), (''avatar_state'', av)])
      ''affect'' = Some (JString a)"
  "map_of (JSON_stringify
      [(''session_id'', sid), (''user_message'', JString text), (''affect'', JString a), (''avatar_state'', av)])
      ''avatar_state'' = sent av"
  by (simp_all add: JSON_stringify_body sent_def)

text \<open>
  Claim C7, as the code has it. Every request \<^verbatim>\<open>handleSend\<close> sends is the one \<^verbatim>\<open>POST\<close> to
  \<^verbatim>\<open>/api/chat\<close> whose JSON body holds, in this order and nothing else: \<^verbatim>\<open>session_id\<close>,
  the current \<^verbatim>\<open>sessionId\<close> (\<^verbatim>\<open>null\<close> at first; left out when \<^verbatim>\<open>undefined\<close>);
  \<^verbatim>\<open>user_message\<close>, the trimmed input, which is not empty; \<^verbatim>\<open>affect\<close>, the value of the
  cell \<^verbatim>\<open>affect\<close>; and \<^verbatim>\<open>avatar_state\<close>, the current \<^verbatim>\<open>avatarState\<close> (left out when
  \<^verbatim>\<open>undefined\<close>); session id and avatar state as \<^verbatim>\<open>JSON.stringify\<close> writes them. The cell
  \<^verbatim>\<open>affect\<close> is not the affect state: whatever the user does it keeps its initial value,
  while the affect estimate of the response is stored in \<^verbatim>\<open>affectState\<close>, which is not sent.
\<close>

theorem request_shape:
  assumes "r \<in> set (fetches (handleSend c oc))"
  shows "r = \<lparr> req_url = ''/api/chat'',
              req_method = ''POST'',
              req_headers = [(''Content-Type'', ''application/json'')],
              req_body = JSON_stringify
                [ (''session_id'', sessionId c),
                  (''user_message'', JString (trim (input c))),
                  (''affect'', JString (affect c)),
                  (''avatar_state'', avatarState c) ] \<rparr>
    \<and> trim (input c) \<noteq> []
    \<and> map_of (req_body r) ''session_id'' = sent (sessionId c)
    \<and> map_of (req_body r) ''user_message'' = Some (JString (trim (input c)))
    \<and> map_of (req_body r) ''affect'' = Some (JString (affect c))
    \<and> map_of (req_body r) ''avatar_state'' = sent (avatarState c)
    \<and> map fst (req_body r) =
        (if sessionId c = JUndefined then [] else [''session_id''])
        @ [''user_message'', ''affect'']
        @ (if avatarState c = JUndefined then [] else [''avatar_state''])
    \<and> length (fetches (handleSend c oc)) = 1
    \<and> affect (run_events App_init evs) = ''a little tense but open''"
proof -
  from assms have ne: "trim (input c) \<noteq> []"
    by (auto simp: fetches_handleSend split: if_splits)
  with assms have r: "r = \<lparr> req_url = ''/api/chat'',
              req_method = ''POST'',
              req_headers = [(''Content-Type'', ''application/json'')],
              req_body = JSON_stringify
                [ (''session_id'', sessionId c),
                  (''user_message'', JString (trim (input c))),
                  (''affect'', JString (affect c)),
                  (''avatar_state'', avatarState c) ] \<rparr>"
    by (simp add: fetches_handleSend)
  have keys: "map fst (req_body r) =
        (if sessionId c = JUndefined then [] else [''session_id''])
        @ [''user_message'', ''affect'']
        @ (if avatarState c = JUndefined then [] else [''avatar_state''])"
    unfolding r by (simp add: JSON_stringify_body)
  have fields: "map_of (req_body r) ''session_id'' = sent (sessionId c)"
    "map_of (req_body r) ''user_message'' = Some (JString (trim (input c)))"
    "map_of (req_body r) ''affect'' = Some (JString (affect c))"
    "map_of (req_body r) ''avatar_state'' = sent (avatarState c)"
    unfolding r by (simp_all add: body_fields)
  from ne have one: "length (fetches (handleSend c oc)) = 1"
    by (simp add: fetches_handleSend)
  have fixed: "affect (run_events App_init evs) = ''a little tense but open''"
    by (simp add: affect_run_events App_init_def)
  note parts = r ne fields keys one fixed
  show ?thesis
    by (intro conjI parts)
qed

theorem request_shape_witness:
  "\<lparr> req_url = ''/api/chat'', req_method = ''POST'',
      req_headers = [(''Content-Type'', ''application/json'')],
      req_body = [ (''session_id'', JNull), (''user_message'', JString ''hi''),
                   (''affect'', JString ''a little tense but open''),
                   (''avatar_state'', JString ''welcoming'') ] \<rparr>
     \<in> set (fetches (handleSend (App_init\<lparr>input := '' hi ''\<rparr>) (Parsed (JObject []))))
   \<and> map_of [ (''session_id'', JNull), (''user_message'', JString ''hi''),
              (''affect'', JString ''a little tense but open''),
              (''avatar_state'', JString ''welcoming'') ] ''user_message'' = Some (JString (trim '' hi ''))"
proof -
  have t: "trim '' hi '' = ''hi''"
    by (simp add: trim_def is_whitespace_def)
  have h: "\<lparr> req_url = ''/api/chat'', req_method = ''POST'',
      req_headers = [(''Content-Type'', ''application/json'')],
      req_body = [ (''session_id'', JNull), (''user_message'', JString ''hi''),
                   (''affect'', JString ''a little tense but open''),
                   (''avatar_state'', JString ''welcoming'') ] \<rparr>
     \<in> set (fetches (handleSend (App_init\<lparr>input := '' hi ''\<rparr>) (Parsed (JObject []))))"
    by (simp add: fetches_handleSend t App_init_def JSON_stringify_body)
  have "map_of (req_body
      \<lparr> req_url = ''/api/chat'', req_method = ''POST'',
        req_headers = [(''Content-Type'', ''application/json'')],
        req_body = [ (''session_id'', JNull), (''user_message'', JString ''hi''),
                     (''affect'', JString ''a little tense but open''),
                     (''avatar_state'', JString ''welcoming'') ] \<rparr>) ''user_message''
      = Some (JString (trim (input (App_init\<lparr>input := '' hi ''\<rparr>))))"
    by (rule request_shape [OF h, THEN conjunct2, THEN conjunct2, THEN conjunct2, THEN conjunct1])
  then have "map_of [ (''session_id'', JNull), (''user_message'', JString ''hi''),
              (''affect'', JString ''a little tense but open''),
              (''avatar_state'', JString ''welcoming'') ] ''user_message'' = Some (JString (trim '' hi ''))"
    by simp
  with h show ?thesis by (rule conjI)
qed

text \<open>
  The affect sent is not the current affect state. After a response whose
  \<^verbatim>\<open>debug.affect_state\<close> is \<^verbatim>\<open>sad\<close> the component holds \<^verbatim>\<open>sad\<close> as its affect state, and
  the next request carries \<^verbatim>\<open>a little tense but open\<close> as \<^verbatim>\<open>affect\<close>.
\<close>

theorem request_affect_counterexample:
  "affectState (run_events App_init
      [ Change ''hi'',
        ClickSend (Parsed (JObject [(''session_id'', JString ''s1''), (''reply'', JString ''Hello''),
                                    (''debug'', JObject [(''affect_state'', JString ''sad'')])])),
        Change ''more'' ]) = JString ''sad''
   \<and> length (fetches (handleSend (run_events App_init
           [ Change ''hi'',
             ClickSend (Parsed (JObject [(''session_id'', JString ''s1''), (''reply'', JString ''Hello''),
                                         (''debug'', JObject [(''affect_state'', JString ''sad'')])])),
             Change ''more'' ]) (Parsed (JObject [(''reply'', JString ''Hi'')])))) = 1
   \<and> map_of (req_body (hd (fetches (handleSend (run_events App_init
           [ Change ''hi'',
             ClickSend (Parsed (JObject [(''session_id'', JString ''s1''), (''reply'', JString ''Hello''),
                                         (''debug'', JObject [(''affect_state'', JString ''sad'')])])),
             Change ''more'' ]) (Parsed (JObject [(''reply'', JString ''Hi'')])))))) ''affect''
       = Some (JString ''a little tense but open'')"
  by code_simp

section \<open>The user's message\<close>

lemma trim_suffix:
  "dropWhile is_whitespace s =
     trim s @ rev (takeWhile is_whitespace (rev (dropWhile is_whitespace s)))"
proof -
  have "trim s @ rev (takeWhile is_whitespace (rev (dropWhile is_whitespace s))) =
      rev (takeWhile is_whitespace (rev (dropWhile is_whitespace s))
           @ dropWhile is_whitespace (rev (dropWhile is_whitespace s)))"
    by (simp only: trim_def rev_append)
  also have "\<dots> = rev (rev (dropWhile is_whitespace s))"
    by (simp only: takeWhile_dropWhile_id)
  also have "\<dots> = dropWhile is_whitespace s"
    by simp
  finally show ?thesis by simp
qed

lemma trim_decompose:
  "s = takeWhile is_whitespace s @ trim s @ rev (takeWhile is_whitespace (rev (dropWhile is_whitespace s)))"
proof -
  have "s = takeWhile is_whitespace s @ dropWhile is_whitespace s"
    by simp
  also have "dropWhile is_whitespace s =
      trim s @ rev (takeWhile is_whitespace (rev (dropWhile is_whitespace s)))"
    by (rule trim_suffix)
  finally show ?thesis .
qed

lemma trim_last: "trim s \<noteq> [] \<Longrightarrow> \<not> is_whitespace (last (trim s))"
  by (simp add: trim_def last_rev hd_dropWhile)

lemma trim_hd:
  assumes "trim s \<noteq> []"
  shows "\<not> is_whitespace (hd (trim s))"
proof -
  have ne: "dropWhile is_whitespace s \<noteq> []"
  proof
    assume a: "dropWhile is_whitespace s = []"
    have "trim s = rev (dropWhile is_whitespace (rev (dropWhile is_whitespace s)))"
      by (simp only: trim_def)
    also have "\<dots> = []" unfolding a by simp
    finally show False using assms by simp
  qed
  have "hd (dropWhile is_whitespace s) =
      hd (trim s @ rev (takeWhile is_whitespace (rev (dropWhile is_whitespace s))))"
    using trim_suffix [of s] by simp
  also have "\<dots> = hd (trim s)"
    using assms by (rule hd_append2)
  finally have "hd (trim s) = hd (dropWhile is_whitespace s)" by simp
  with ne show ?thesis by (simp add: hd_dropWhile)
qed

text \<open>What a turn that sends a request does to the history and the input, whatever the outcome.\<close>

lemma turn_user_message:
  assumes "trim (input c) \<noteq> []"
  shows "input (turn c oc) = []"
    and "take (Suc (length (messages c))) (messages (turn c oc)) =
      messages c @ [\<lparr> role = ''user'', content = JString (trim (input c)) \<rparr>]"
proof -
  have "input (turn c oc) = [] \<and>
      take (Suc (length (messages c))) (messages (turn c oc)) =
        messages c @ [\<lparr> role = ''user'', content = JString (trim (input c)) \<rparr>]"
  proof (cases "thrown c oc")
    case (Some err)
    with assms show ?thesis by (simp add: turn_thrown)
  next
    case None
    then obtain data where oc: "oc = Parsed data"
      by (cases oc) (simp_all add: thrown_def)
    with None have "\<not> nullish data" by (simp add: thrown_Parsed)
    with assms oc show ?thesis by (simp add: turn_ok)
  qed
  then show "input (turn c oc) = []"
    and "take (Suc (length (messages c))) (messages (turn c oc)) =
      messages c @ [\<lparr> role = ''user'', content = JString (trim (input c)) \<rparr>]"
    by simp_all
qed

text \<open>
  Claim C10. When the trimmed input is not empty, \<^verbatim>\<open>handleSend\<close> first sets the history
  to the old one with the user's message appended, then sets the input to the empty
  string, then sends the request, and sends no other request afterwards. So when the
  request is issued the history is the old one followed by the user's message and the
  input is empty, also with other requests in flight; and after the turn, whatever its
  outcome, the input is empty and the message after the old history is the user's. The
  content of that message and the \<^verbatim>\<open>user_message\<close> of the request are both the trimmed
  input: the input without the white space before its first and after its last character
  that is not white space.
\<close>

theorem user_message_trimmed:
  assumes "trim (input c) \<noteq> []"
  shows "handleSend c oc =
       [ SetMessages (messages c @ [\<lparr> role = ''user'', content = JString (trim (input c)) \<rparr>]),
         SetInput [],
         Fetch \<lparr> req_url = ''/api/chat'',
                 req_method = ''POST'',
                 req_headers = [(''Content-Type'', ''application/json'')],
                 req_body = JSON_stringify
                   [ (''session_id'', sessionId c),
                     (''user_message'', JString (trim (input c))),
                     (''affect'', JString (affect c)),
                     (''avatar_state'', avatarState c) ] \<rparr> ]
       @ after_await c oc
    \<and> run_effects (take 2 (handleSend c oc)) c =
        c\<lparr> messages := messages c @ [\<lparr> role = ''user'', content = JString (trim (input c)) \<rparr>],
           input := [] \<rparr>
    \<and> istep (c, ps) ISend =
        (c\<lparr> messages := messages c @ [\<lparr> role = ''user'', content = JString (trim (input c)) \<rparr>],
            input := [] \<rparr>, ps @ [c])
    \<and> input (turn c oc) = []
    \<and> take (Suc (length (messages c))) (messages (turn c oc)) =
        messages c @ [\<lparr> role = ''user'', content = JString (trim (input c)) \<rparr>]
    \<and> fetches (after_await c oc) = []
    \<and> map_of (JSON_stringify
                   [ (''session_id'', sessionId c),
                     (''user_message'', JString (trim (input c))),
                     (''affect'', JString (affect c)),
                     (''avatar_state'', avatarState c) ]) ''user_message'' = Some (JString (trim (input c)))
    \<and> input c = takeWhile is_whitespace (input c) @ trim (input c)
          @ rev (takeWhile is_whitespace (rev (dropWhile is_whitespace (input c))))
    \<and> list_all is_whitespace (takeWhile is_whitespace (input c))
    \<and> list_all is_whitespace (rev (takeWhile is_whitespace (rev (dropWhile is_whitespace (input c)))))
    \<and> \<not> is_whitespace (hd (trim (input c)))
    \<and> \<not> is_whitespace (last (trim (input c)))"
proof -
  have "handleSend c oc = before_await c (trim (input c)) @ after_await c oc"
    using assms by (rule handleSend_nonempty)
  then have effects: "handleSend c oc =
       [ SetMessages (messages c @ [\<lparr> role = ''user'', content = JString (trim (input c)) \<rparr>]),
         SetInput [],
         Fetch \<lparr> req_url = ''/api/chat'',
                 req_method = ''POST'',
                 req_headers = [(''Content-Type'', ''application/json'')],
                 req_body = JSON_stringify
                   [ (''session_id'', sessionId c),
                     (''user_message'', JString (trim (input c))),
                     (''affect'', JString (affect c)),
                     (''avatar_state'', avatarState c) ] \<rparr> ]
       @ after_await c oc"
    by (simp add: before_await_def)
  have issued: "run_effects (take 2 (handleSend c oc)) c =
        c\<lparr> messages := messages c @ [\<lparr> role = ''user'', content = JString (trim (input c)) \<rparr>],
           input := [] \<rparr>"
    unfolding effects by (simp add: numeral_2_eq_2)
  have in_flight: "istep (c, ps) ISend =
        (c\<lparr> messages := messages c @ [\<lparr> role = ''user'', content = JString (trim (input c)) \<rparr>],
            input := [] \<rparr>, ps @ [c])"
    using assms by (simp add: Let_def before_await_def)
  have body: "map_of (JSON_stringify
                   [ (''session_id'', sessionId c),
                     (''user_message'', JString (trim (input c))),
                     (''affect'', JString (affect c)),
                     (''avatar_state'', avatarState c) ]) ''user_message'' = Some (JString (trim (input c)))"
    by (rule body_fields)
  have white: "list_all is_whitespace (takeWhile is_whitespace (input c))"
    "list_all is_whitespace (rev (takeWhile is_whitespace (rev (dropWhile is_whitespace (input c)))))"
    by (auto simp: list_all_iff dest: set_takeWhileD)
  note parts = effects issued in_flight turn_user_message [OF assms, of oc]
      fetches_after_await [of c oc] body trim_decompose [of "input c"] white
      trim_hd [OF assms] trim_last [OF assms]
  show ?thesis
    by (intro conjI parts)
qed

theorem user_message_trimmed_witness:
  "trim (input (App_init\<lparr>input := '' hi ''\<rparr>)) \<noteq> []
   \<and> input (turn (App_init\<lparr>input := '' hi ''\<rparr>) (Parsed (JObject [(''reply'', JString ''Hello'')]))) = []
   \<and> take (Suc (length (messages (App_init\<lparr>input := '' hi ''\<rparr>))))
        (messages (turn (App_init\<lparr>input := '' hi ''\<rparr>) (Parsed (JObject [(''reply'', JString ''Hello'')]))))
       = messages App_init @ [\<lparr> role = ''user'', content = JString ''hi'' \<rparr>]"
proof -
  let ?st = "App_init\<lparr>input := '' hi ''\<rparr>"
  let ?oc = "Parsed (JObject [(''reply'', JString ''Hello'')])"
  have t: "trim '' hi '' = ''hi''"
    by (simp add: trim_def is_whitespace_def)
  have h: "trim (input ?st) \<noteq> []"
    by (simp add: t)
  note facts = user_message_trimmed [OF h, of ?oc]
  have cleared: "input (turn ?st ?oc) = []"
    by (rule facts [THEN conjunct2, THEN conjunct2, THEN conjunct2, THEN conjunct1])
  have "take (Suc (length (messages ?st))) (messages (turn ?st ?oc)) =
      messages ?st @ [\<lparr> role = ''user'', content = JString (trim (input ?st)) \<rparr>]"
    by (rule facts [THEN conjunct2, THEN conjunct2, THEN conjunct2, THEN conjunct2, THEN conjunct1])
  then have "take (Suc (length (messages ?st))) (messages (turn ?st ?oc)) =
      messages App_init @ [\<lparr> role = ''user'', content = JString ''hi'' \<rparr>]"
    by (simp add: t)
  with h cleared show ?thesis by blast
qed

section \<open>The session id\<close>

lemma sessionId_turn:
  assumes "trim (input st) \<noteq> []"
  shows "sessionId (turn st oc) =
     (case returned_session_id oc of None \<Rightarrow> sessionId st | Some v \<Rightarrow> v)"
proof (cases "thrown st oc")
  case (Some err)
  have "returned_session_id oc = None"
  proof (cases oc)
    case (Parsed data)
    with Some have "nullish data"
      using thrown_Parsed [of st data] by auto
    then obtain e where "js_get data ''session_id'' = Inl e"
      using js_get_nullish by blast
    with Parsed show ?thesis by (simp add: returned_session_id_def)
  qed (simp_all add: returned_session_id_def)
  with assms Some show ?thesis by (simp add: turn_thrown)
next
  case None
  then obtain data where oc: "oc = Parsed data"
    by (cases oc) (simp_all add: thrown_def)
  with None have nn: "\<not> nullish data" by (simp add: thrown_Parsed)
  then have "returned_session_id oc = Some (field data ''session_id'')"
    by (simp add: oc returned_session_id_def js_get_field)
  with assms oc nn show ?thesis by (simp add: turn_ok)
qed

text \<open>
  One event issues no request and leaves the session id alone, or issues one request,
  which carries the session id held before, and then holds the one the response returned.
\<close>

lemma event_exchange:
  fixes st ev
  defines "xs \<equiv> (case event_outcome ev of
        None \<Rightarrow> []
      | Some oc \<Rightarrow> map (\<lambda>r. (r, oc)) (fetches (event_effects st ev)))"
  shows "(xs = [] \<and> sessionId (step st ev) = sessionId st) \<or>
    (\<exists>r oc. xs = [(r, oc)] \<and> map_of (req_body r) ''session_id'' = sent (sessionId st)
       \<and> sessionId (step st ev) =
           (case returned_session_id oc of None \<Rightarrow> sessionId st | Some v \<Rightarrow> v))"
proof -
  have send: "(map (\<lambda>r. (r, oc)) (fetches (handleSend st oc)) = []
        \<and> sessionId (turn st oc) = sessionId st) \<or>
    (\<exists>r. map (\<lambda>r. (r, oc)) (fetches (handleSend st oc)) = [(r, oc)]
       \<and> map_of (req_body r) ''session_id'' = sent (sessionId st)
       \<and> sessionId (turn st oc) =
           (case returned_session_id oc of None \<Rightarrow> sessionId st | Some v \<Rightarrow> v))" for oc
  proof (cases "trim (input st) = []")
    case True
    then show ?thesis by (simp add: fetches_handleSend turn_empty)
  next
    case False
    then show ?thesis
      by (simp add: fetches_handleSend sessionId_turn body_fields restrict_map_def sent_def)
  qed
  show ?thesis
  proof (cases ev)
    case (Change s)
    then show ?thesis by (simp add: xs_def step_def)
  next
    case (ClickAvatar i)
    then show ?thesis by (simp add: xs_def step_def)
  next
    case (ClickSend oc)
    with send [of oc] show ?thesis
      by (auto simp: xs_def step_def turn_def)
  next
    case (KeyDown key shift oc)
    show ?thesis
    proof (cases "key = ''Enter'' \<and> \<not> shift")
      case True
      with KeyDown send [of oc] show ?thesis
        by (auto simp: xs_def step_def turn_def)
    next
      case False
      with KeyDown show ?thesis by (auto simp: xs_def step_def)
    qed
  qed
qed

lemma exchanges_session_id:
  "i < length (exchanges st evs) \<Longrightarrow>
   map_of (req_body (fst (exchanges st evs ! i))) ''session_id'' =
     sent (carried (sessionId st) (map snd (take i (exchanges st evs))))"
proof (induction evs arbitrary: st i)
  case Nil
  then show ?case by simp
next
  case (Cons ev evs)
  let ?xs = "(case event_outcome ev of
        None \<Rightarrow> []
      | Some oc \<Rightarrow> map (\<lambda>r. (r, oc)) (fetches (event_effects st ev)))"
  have ex: "exchanges st (ev # evs) = ?xs @ exchanges (step st ev) evs"
    by simp
  from event_exchange [where st = st and ev = ev]
  consider (none) "?xs = []" "sessionId (step st ev) = sessionId st"
    | (one) r oc where "?xs = [(r, oc)]"
        "map_of (req_body r) ''session_id'' = sent (sessionId st)"
        "sessionId (step st ev) =
           (case returned_session_id oc of None \<Rightarrow> sessionId st | Some v \<Rightarrow> v)"
    by blast
  then show ?case
  proof cases
    case none
    with Cons.prems ex have "i < length (exchanges (step st ev) evs)" by simp
    from Cons.IH [OF this] none ex show ?thesis by simp
  next
    case one
    show ?thesis
    proof (cases i)
      case 0
      with one ex show ?thesis by simp
    next
      case (Suc j)
      with Cons.prems ex one have "j < length (exchanges (step st ev) evs)" by simp
      from Cons.IH [OF this] one ex Suc show ?thesis by simp
    qed
  qed
qed

text \<open>
  Claim C6, as the code has it. Over every sequence of user events from the first render
  on (typing, avatar clicks, sends, each request settled before the next event), the
  \<open>i\<close>-th request sent carries as \<^verbatim>\<open>session_id\<close> the session id carried forward over the
  responses to the requests before it, as \<^verbatim>\<open>JSON.stringify\<close> writes it: \<^verbatim>\<open>null\<close> as long as
  no response has been processed (so the first request sends \<^verbatim>\<open>null\<close>), and afterwards
  the \<^verbatim>\<open>session_id\<close> of the latest response that was processed without an error. The id is
  carried forward as long as the processed responses return it: line 46 stores what the
  latest of them holds as \<^verbatim>\<open>session_id\<close>, also when it holds none.
\<close>

theorem session_id_carried_forward:
  assumes "i < length (exchanges App_init evs)"
  shows "map_of (req_body (fst (exchanges App_init evs ! i))) ''session_id'' =
       sent (carried JNull (map snd (take i (exchanges App_init evs))))
    \<and> map_of (req_body (fst (exchanges App_init evs ! 0))) ''session_id'' = Some JNull"
proof -
  from assms have first: "0 < length (exchanges App_init evs)"
    by (cases "exchanges App_init evs") simp_all
  show ?thesis
    using exchanges_session_id [OF assms] exchanges_session_id [OF first]
    by (simp add: App_init_def sent_def)
qed

theorem session_id_carried_forward_witness:
  "2 < length (exchanges App_init
        [ Change ''hi'',
          ClickSend (Parsed (JObject [(''session_id'', JString ''s1''), (''reply'', JString ''Hello'')])),
          ClickAvatar 4,
          Change ''more'',
          KeyDown ''Enter'' False (FetchRejected (JsError ''TypeError'' ''Failed to fetch'')),
          Change ''again'',
          ClickSend (Parsed (JObject [(''session_id'', JString ''s1''), (''reply'', JString ''Hi'')])) ])
   \<and> map_of (req_body (fst (exchanges App_init
        [ Change ''hi'',
          ClickSend (Parsed (JObject [(''session_id'', JString ''s1''), (''reply'', JString ''Hello'')])),
          ClickAvatar 4,
          Change ''more'',
          KeyDown ''Enter'' False (FetchRejected (JsError ''TypeError'' ''Failed to fetch'')),
          Change ''again'',
          ClickSend (Parsed (JObject [(''session_id'', JString ''s1''), (''reply'', JString ''Hi'')])) ] ! 2)))
        ''session_id'' = Some (JString ''s1'')"
proof -
  let ?evs = "[ Change ''hi'',
          ClickSend (Parsed (JObject [(''session_id'', JString ''s1''), (''reply'', JString ''Hello'')])),
          ClickAvatar 4,
          Change ''more'',
          KeyDown ''Enter'' False (FetchRejected (JsError ''TypeError'' ''Failed to fetch'')),
          Change ''again'',
          ClickSend (Parsed (JObject [(''session_id'', JString ''s1''), (''reply'', JString ''Hi'')])) ]"
  have outcomes: "map snd (exchanges App_init ?evs) =
      [ Parsed (JObject [(''session_id'', JString ''s1''), (''reply'', JString ''Hello'')]),
        FetchRejected (JsError ''TypeError'' ''Failed to fetch''),
        Parsed (JObject [(''session_id'', JString ''s1''), (''reply'', JString ''Hi'')]) ]"
    by code_simp
  then have "length (map snd (exchanges App_init ?evs)) = 3" by simp
  then have h: "2 < length (exchanges App_init ?evs)" by simp
  have "map_of (req_body (fst (exchanges App_init ?evs ! 2))) ''session_id'' =
      sent (carried JNull (take 2 (map snd (exchanges App_init ?evs))))"
    using session_id_carried_forward [OF h, THEN conjunct1] by (simp only: take_map)
  also have "\<dots> = Some (JString ''s1'')"
    unfolding outcomes by code_simp
  finally show ?thesis using h by simp
qed

text \<open>
  A session id once returned is not sent by all later requests. The first response
  returns \<^verbatim>\<open>s1\<close> and the second request sends it; the second response is a body without
  \<^verbatim>\<open>session_id\<close> (as an error body is; \<^verbatim>\<open>fetch\<close> does not throw on an error status), and
  the third request carries no \<^verbatim>\<open>session_id\<close> at all.
\<close>

theorem session_id_counterexample:
  "length (exchanges App_init
        [ Change ''hi'',
          ClickSend (Parsed (JObject [(''session_id'', JString ''s1''), (''reply'', JString ''Hello'')])),
          Change ''more'',
          ClickSend (Parsed (JObject [(''detail'', JString ''Internal Server Error'')])),
          Change ''again'',
          ClickSend (Parsed (JObject [(''session_id'', JString ''s2''), (''reply'', JString ''Hi'')])) ]) = 3
   \<and> map_of (req_body (fst (exchanges App_init
        [ Change ''hi'',
          ClickSend (Parsed (JObject [(''session_id'', JString ''s1''), (''reply'', JString ''Hello'')])),
          Change ''more'',
          ClickSend (Parsed (JObject [(''detail'', JString ''Internal Server Error'')])),
          Change ''again'',
          ClickSend (Parsed (JObject [(''session_id'', JString ''s2''), (''reply'', JString ''Hi'')])) ] ! 1)))
        ''session_id'' = Some (JString ''s1'')
   \<and> map_of (req_body (fst (exchanges App_init
        [ Change ''hi'',
          ClickSend (Parsed (JObject [(''session_id'', JString ''s1''), (''reply'', JString ''Hello'')])),
          Change ''more'',
          ClickSend (Parsed (JObject [(''detail'', JString ''Internal Server Error'')])),
          Change ''again'',
          ClickSend (Parsed (JObject [(''session_id'', JString ''s2''), (''reply'', JString ''Hi'')])) ] ! 2)))
        ''session_id'' = None"
  by code_simp

section \<open>The avatar state over every run\<close>

lemma avatarState_before_await [simp]:
  "avatarState (run_effects (before_await c text) st) = avatarState st"
  by (simp add: before_await_def)

text \<open>
  Resuming a waiting handler: on an error the avatar state stays; otherwise it becomes the
  response's \<^verbatim>\<open>avatar_state\<close> if that is truthy, and else the avatar state the handler
  closed over.
\<close>

lemma avatarState_after_await:
  "avatarState (run_effects (after_await c oc) st) =
     (if thrown c oc = None then js_or (avatar_hint oc) (avatarState c) else avatarState st)"
proof (cases "thrown c oc")
  case (Some err)
  then show ?thesis by (simp add: after_await_thrown catch_block_eq)
next
  case None
  then obtain data where oc: "oc = Parsed data"
    by (cases oc) (simp_all add: thrown_def)
  with None have "\<not> nullish data" by (simp add: thrown_Parsed)
  with None oc show ?thesis
    by (simp add: after_await_Parsed try_body_ok avatar_hint_def)
qed

text \<open>
  A property of values that the buttons establish and every settled request keeps is an
  invariant of the avatar state, of the current state and of every waiting closure.
\<close>

lemma istep_avatar:
  assumes buttons: "\<And>s. s \<in> set AVATAR_STATES \<Longrightarrow> P (JString s)"
    and settle: "\<And>k oc b. ev = ISettle k oc \<Longrightarrow> P b \<Longrightarrow> P (js_or (avatar_hint oc) b)"
    and cur: "P (avatarState st)"
    and waiting: "\<forall>c \<in> set ps. P (avatarState c)"
  shows "P (avatarState (fst (istep (st, ps) ev))) \<and>
    (\<forall>c \<in> set (snd (istep (st, ps) ev)). P (avatarState c))"
proof (cases ev)
  case (IChange s)
  with cur waiting show ?thesis by simp
next
  case (IClickAvatar i)
  with cur waiting buttons show ?thesis by simp
next
  case ISend
  with cur waiting show ?thesis by (simp add: Let_def)
next
  case (ISettle k oc)
  show ?thesis
  proof (cases "k < length ps")
    case True
    with waiting have "P (avatarState (ps ! k))" by simp
    with ISettle have "P (js_or (avatar_hint oc) (avatarState (ps ! k)))"
      by (rule settle)
    moreover have "\<forall>c \<in> set (take k ps @ drop (Suc k) ps). P (avatarState c)"
      using waiting by (auto dest: in_set_takeD in_set_dropD)
    ultimately show ?thesis
      using ISettle True cur by (simp add: avatarState_after_await)
  next
    case False
    with ISettle cur waiting show ?thesis by simp
  qed
qed

lemma irun_avatar:
  assumes buttons: "\<And>s. s \<in> set AVATAR_STATES \<Longrightarrow> P (JString s)"
    and settle: "\<And>k oc b. ISettle k oc \<in> set evs \<Longrightarrow> P b \<Longrightarrow> P (js_or (avatar_hint oc) b)"
    and cur: "P (avatarState st)"
    and waiting: "\<forall>c \<in> set ps. P (avatarState c)"
  shows "P (avatarState (fst (irun (st, ps) evs)))"
  using settle cur waiting
proof (induction evs arbitrary: st ps)
  case Nil
  then show ?case by (simp add: irun_def)
next
  case (Cons ev evs)
  obtain st' ps' where next_cfg: "istep (st, ps) ev = (st', ps')"
    by (cases "istep (st, ps) ev")
  have "P (avatarState (fst (istep (st, ps) ev))) \<and>
    (\<forall>c \<in> set (snd (istep (st, ps) ev)). P (avatarState c))"
  proof (rule istep_avatar)
    show "\<And>s. s \<in> set AVATAR_STATES \<Longrightarrow> P (JString s)" by (rule buttons)
    show "P (js_or (avatar_hint oc) b)" if "ev = ISettle k oc" and "P b" for k oc b
      using that Cons.prems(1) [of k oc b] by simp
    show "P (avatarState st)" by (rule Cons.prems(2))
    show "\<forall>c \<in> set ps. P (avatarState c)" by (rule Cons.prems(3))
  qed
  with next_cfg have "P (avatarState st')" and "\<forall>c \<in> set ps'. P (avatarState c)"
    by simp_all
  moreover have "P (js_or (avatar_hint oc) b)" if "ISettle k oc \<in> set evs" and "P b" for k oc b
    using that Cons.prems(1) [of k oc b] by simp
  ultimately have "P (avatarState (fst (irun (st', ps') evs)))"
    using Cons.IH by blast
  with next_cfg show ?case by (simp add: irun_def)
qed

lemma candidate_nonempty: "s \<in> set AVATAR_STATES \<Longrightarrow> is_nonempty_string (JString s)"
  by (auto simp: AVATAR_STATES_def is_nonempty_string_def)

lemma typed_settle_nonempty:
  assumes "avatar_typed (ISettle k oc)" and "is_nonempty_string b"
  shows "is_nonempty_string (js_or (avatar_hint oc) b)"
  using assms
  by (cases "avatar_hint oc") (auto simp: avatar_typed_def js_or_def is_nonempty_string_def)

text \<open>Without any assumption on the responses the avatar state is always truthy.\<close>

lemma avatarState_truthy: "truthy (avatarState (fst (irun (App_init, []) evs)))"
proof (rule irun_avatar)
  show "\<And>s. s \<in> set AVATAR_STATES \<Longrightarrow> truthy (JString s)"
    by (auto simp: AVATAR_STATES_def)
  show "\<And>k oc b. ISettle k oc \<in> set evs \<Longrightarrow> truthy b \<Longrightarrow> truthy (js_or (avatar_hint oc) b)"
    by (simp add: js_or_def)
  show "truthy (avatarState App_init)" by (simp add: App_init_def)
  show "\<forall>c \<in> set []. truthy (avatarState c)" by simp
qed

text \<open>A turn without anything in between is a send followed by the settling of its request.\<close>

lemma turn_as_isteps: "istep (istep (st, []) ISend) (ISettle 0 oc) = (turn st oc, [])"
  by (simp add: Let_def turn_def handleSend_def)

text \<open>
  With requests in flight, a response without \<^verbatim>\<open>avatar_state\<close> sets the avatar state to the
  one its handler closed over. Here the user sends, clicks the fifth button while the
  request is in flight, and the response carries no \<^verbatim>\<open>avatar_state\<close>: the avatar state is
  again the one from before the click.
\<close>

lemma in_flight_click_example:
  "avatarState (fst (irun (App_init, [])
      [IChange ''hi'', ISend, IClickAvatar 4])) = JString ''thinking''
   \<and> avatarState (fst (irun (App_init, [])
      [IChange ''hi'', ISend, IClickAvatar 4,
       ISettle 0 (Parsed (JObject [(''reply'', JString ''Hello'')]))])) = JString ''welcoming''"
  by code_simp

text \<open>
  Claim C9, as the code has it. The avatar state starts as \<^verbatim>\<open>welcoming\<close>, and an avatar
  button sets the member of \<^verbatim>\<open>AVATAR_STATES\<close> it shows and nothing else. Line 51 stores a
  truthy \<^verbatim>\<open>avatar_state\<close> of a processed response as it is, so over every run of the
  component from the first render, with requests in flight or not, the avatar state is
  always truthy, and it is a non-empty string as long as every response carries as
  \<^verbatim>\<open>avatar_state\<close> a string or a falsy value. When a settled request carries a falsy
  \<^verbatim>\<open>avatar_state\<close> (or none) and the avatar state has not changed since the request was
  sent, the avatar state is left as it was; so it is by a turn with nothing in between.
\<close>

theorem avatarState_nonempty_string:
  assumes "\<forall>ev \<in> set evs. avatar_typed ev"
  shows "avatarState App_init = JString ''welcoming''
    \<and> (\<forall>e \<in> set (event_effects st (ClickAvatar i)).
          \<exists>s \<in> set AVATAR_STATES. e = SetAvatarState (JString s))
    \<and> (i < length AVATAR_STATES \<longrightarrow>
          avatarState (step st (ClickAvatar i)) = JString (AVATAR_STATES ! i))
    \<and> is_nonempty_string (avatarState (fst (irun (App_init, []) evs)))
    \<and> truthy (avatarState (fst (irun (App_init, []) evs')))
    \<and> (k < length ps \<and> thrown (ps ! k) oc = None \<and> truthy (avatar_hint oc) \<longrightarrow>
          avatarState (fst (istep (st, ps) (ISettle k oc))) = avatar_hint oc)
    \<and> (k < length ps \<and> \<not> truthy (avatar_hint oc) \<and> avatarState (ps ! k) = avatarState st \<longrightarrow>
          avatarState (fst (istep (st, ps) (ISettle k oc))) = avatarState st)
    \<and> (\<not> truthy (avatar_hint oc) \<longrightarrow> avatarState (turn st oc) = avatarState st)"
proof -
  have init: "avatarState App_init = JString ''welcoming''"
    by (simp add: App_init_def)
  have buttons: "\<forall>e \<in> set (event_effects st (ClickAvatar i)).
          \<exists>s \<in> set AVATAR_STATES. e = SetAvatarState (JString s)"
    by simp
  have click: "i < length AVATAR_STATES \<longrightarrow>
          avatarState (step st (ClickAvatar i)) = JString (AVATAR_STATES ! i)"
    by (simp add: step_def)
  have always: "is_nonempty_string (avatarState (fst (irun (App_init, []) evs)))"
  proof (rule irun_avatar)
    show "\<And>s. s \<in> set AVATAR_STATES \<Longrightarrow> is_nonempty_string (JString s)"
      by (rule candidate_nonempty)
    show "\<And>k oc b. ISettle k oc \<in> set evs \<Longrightarrow> is_nonempty_string b \<Longrightarrow>
        is_nonempty_string (js_or (avatar_hint oc) b)"
      using assms by (blast intro: typed_settle_nonempty)
    show "is_nonempty_string (avatarState App_init)"
      by (simp add: App_init_def is_nonempty_string_def)
    show "\<forall>c \<in> set []. is_nonempty_string (avatarState c)" by simp
  qed
  have stored: "k < length ps \<and> thrown (ps ! k) oc = None \<and> truthy (avatar_hint oc) \<longrightarrow>
          avatarState (fst (istep (st, ps) (ISettle k oc))) = avatar_hint oc"
    by (simp add: avatarState_after_await js_or_def)
  have kept: "k < length ps \<and> \<not> truthy (avatar_hint oc) \<and> avatarState (ps ! k) = avatarState st \<longrightarrow>
          avatarState (fst (istep (st, ps) (ISettle k oc))) = avatarState st"
    by (simp add: avatarState_after_await js_or_def)
  have retained: "\<not> truthy (avatar_hint oc) \<longrightarrow> avatarState (turn st oc) = avatarState st"
    using avatarState_turn [of st oc] by blast
  note parts = init buttons click always avatarState_truthy [of evs'] stored kept retained
  show ?thesis by (intro conjI parts)
qed

theorem avatarState_nonempty_string_witness:
  "avatar_typed (IChange ''hi'')
   \<and> avatar_typed ISend
   \<and> avatar_typed (ISettle 0 (Parsed (JObject [(''reply'', JString ''Hello''), (''avatar_state'', JString ''listening'')])))
   \<and> avatar_typed (IChange ''more'')
   \<and> avatar_typed (ISettle 0 (Parsed (JObject [(''reply'', JString ''Hi''), (''avatar_state'', JString [])])))
   \<and> is_nonempty_string (avatarState (fst (irun (App_init, [])
        [ IChange ''hi'', ISend,
          ISettle 0 (Parsed (JObject [(''reply'', JString ''Hello''), (''avatar_state'', JString ''listening'')])),
          IChange ''more'', ISend,
          ISettle 0 (Parsed (JObject [(''reply'', JString ''Hi''), (''avatar_state'', JString [])])) ])))
   \<and> avatarState (fst (irun (App_init, [])
        [ IChange ''hi'', ISend,
          ISettle 0 (Parsed (JObject [(''reply'', JString ''Hello''), (''avatar_state'', JString ''listening'')])),
          IChange ''more'', ISend,
          ISettle 0 (Parsed (JObject [(''reply'', JString ''Hi''), (''avatar_state'', JString [])])) ]))
       = JString ''listening''"
proof -
  let ?evs = "[ IChange ''hi'', ISend,
          ISettle 0 (Parsed (JObject [(''reply'', JString ''Hello''), (''avatar_state'', JString ''listening'')])),
          IChange ''more'', ISend,
          ISettle 0 (Parsed (JObject [(''reply'', JString ''Hi''), (''avatar_state'', JString [])])) ]"
  have typed: "avatar_typed (IChange ''hi'')" "avatar_typed ISend"
    "avatar_typed (ISettle 0 (Parsed (JObject [(''reply'', JString ''Hello''), (''avatar_state'', JString ''listening'')])))"
    "avatar_typed (IChange ''more'')"
    "avatar_typed (ISettle 0 (Parsed (JObject [(''reply'', JString ''Hi''), (''avatar_state'', JString [])])))"
    by (simp_all add: avatar_typed_def avatar_hint_def field_def)
  then have h: "\<forall>ev \<in> set ?evs. avatar_typed ev"
    by simp
  have nonempty: "is_nonempty_string (avatarState (fst (irun (App_init, []) ?evs)))"
    by (rule avatarState_nonempty_string [OF h, THEN conjunct2, THEN conjunct2, THEN conjunct2,
          THEN conjunct1])
  have "avatarState (fst (irun (App_init, []) ?evs)) = JString ''listening''"
    by code_simp
  with typed nonempty show ?thesis by (intro conjI)
qed

text \<open>
  Without the assumption on the responses the avatar state need not be a string: a
  response whose \<^verbatim>\<open>avatar_state\<close> is the number \<^verbatim>\<open>5.5\<close> leaves the component with that
  number as its avatar state.
\<close>

theorem avatarState_string_counterexample:
  "avatarState (turn (App_init\<lparr>input := ''hi''\<rparr>)
      (Parsed (JObject [(''reply'', JString ''Hello''), (''avatar_state'', JNumber ''5.5'')])))
     = JNumber ''5.5''
   \<and> \<not> is_nonempty_string (avatarState (turn (App_init\<lparr>input := ''hi''\<rparr>)
      (Parsed (JObject [(''reply'', JString ''Hello''), (''avatar_state'', JNumber ''5.5'')]))))"
proof -
  have "\<not> nullish (JObject [(''reply'', JString ''Hello''), (''avatar_state'', JNumber ''5.5'')])"
    by (simp add: nullish_def)
  then show ?thesis
    by (simp add: turn_ok trim_hi field_def js_or_def is_nonempty_string_def)
qed

end
